theory Spec2Isabelle
  imports Main "HOL-Library.Sublist" "HOL-Library.AList"
begin

section \<open>Python values used by the tools\<close>

text \<open>
  Python strings are modelled as \<^typ>\<open>string\<close>; one \<^typ>\<open>char\<close> stands for one character of
  the Python string, so \<open>len\<close> is \<^const>\<open>length\<close>. Python integers are unbounded and are
  modelled as \<^typ>\<open>int\<close>.
\<close>

text \<open>The slice \<open>xs[:k]\<close>: a negative \<open>k\<close> counts from the end and is clamped at the start.\<close>

definition slice_to :: "'a list \<Rightarrow> int \<Rightarrow> 'a list" where
  "slice_to xs k =
     (if 0 \<le> k then take (nat k) xs else take (nat (int (length xs) + k)) xs)"

text \<open>The decimal rendering \<open>str(n)\<close> that an f-string applies to an integer.\<close>

definition digit_char :: "nat \<Rightarrow> char" where
  "digit_char d = char_of (48 + d)"

function str_nat :: "nat \<Rightarrow> string" where
  "str_nat n = (if n < 10 then [digit_char n] else str_nat (n div 10) @ [digit_char (n mod 10)])"
  by pat_completeness auto
termination
  by (relation "measure id") auto

declare str_nat.simps [simp del]

definition str_int :: "int \<Rightarrow> string" where
  "str_int i = (if i < 0 then CHR ''-'' # str_nat (nat (- i)) else str_nat (nat i))"

section \<open>OutputGovernor: \<open>utils/output_limiter.py\<close>\<close>

text \<open>\<open>OutputLimiter.truncate_text(text, max_chars, add_note)\<close>.\<close>

definition truncation_note :: "int \<Rightarrow> string \<Rightarrow> string" where
  "truncation_note max_chars text =
     ''\<newline>\<newline>[Output truncated to '' @ str_int max_chars @
     '' characters. Original length: '' @ str_int (int (length text)) @ '' characters]''"

definition truncate_text :: "string \<Rightarrow> int \<Rightarrow> bool \<Rightarrow> string" where
  "truncate_text text max_chars add_note =
     (if int (length text) \<le> max_chars then text
      else let truncated = slice_to text max_chars in
        if add_note then
          let note = truncation_note max_chars text in
          slice_to truncated (max_chars - int (length note)) @ note
        else truncated)"

section \<open>POSIX path functions of the Python library\<close>

text \<open>
  The validator runs on POSIX (\<open>os.sep = '/'\<close>); the functions below follow \<open>posixpath\<close>,
  \<open>fnmatch\<close> and \<open>pathlib.PurePosixPath\<close>. The working directory read by
  \<open>os.path.abspath\<close> and \<open>os.path.relpath\<close> is an explicit argument.
\<close>

text \<open>\<open>s.split(c)\<close> and \<open>c.join(xs)\<close> for a one-character separator.\<close>

fun split_sep :: "char \<Rightarrow> string \<Rightarrow> string list" where
  "split_sep c [] = [[]]"
| "split_sep c (x # xs) =
     (if x = c then [] # split_sep c xs
      else (case split_sep c xs of
              [] \<Rightarrow> [[x]]
            | h # t \<Rightarrow> (x # h) # t))"

fun join_sep :: "char \<Rightarrow> string list \<Rightarrow> string" where
  "join_sep c [] = []"
| "join_sep c [x] = x"
| "join_sep c (x # y # ys) = x @ c # join_sep c (y # ys)"

definition isabs :: "string \<Rightarrow> bool" where
  "isabs p = prefix ''/'' p"

text \<open>\<open>os.path.join(a, b)\<close> and the variadic \<open>os.path.join(a, *p)\<close>.\<close>

definition os_path_join :: "string \<Rightarrow> string \<Rightarrow> string" where
  "os_path_join a b =
     (if prefix ''/'' b then b
      else if a = [] \<or> last a = CHR ''/'' then a @ b
      else a @ ''/'' @ b)"

definition os_path_join_all :: "string list \<Rightarrow> string" where
  "os_path_join_all ps = (case ps of [] \<Rightarrow> [] | a # p \<Rightarrow> foldl os_path_join a p)"

text \<open>
  \<open>os.path.normpath\<close>: the loop over the components keeps a stack \<open>new_comps\<close>; the first
  argument says whether the path has initial slashes.
\<close>

fun normpath_loop :: "bool \<Rightarrow> string list \<Rightarrow> string list \<Rightarrow> string list" where
  "normpath_loop initial_slashes new_comps [] = new_comps"
| "normpath_loop initial_slashes new_comps (cmp # comps) =
     (if cmp = [] \<or> cmp = ''.'' then normpath_loop initial_slashes new_comps comps
      else if cmp \<noteq> ''..'' \<or> (\<not> initial_slashes \<and> new_comps = [])
                \<or> (new_comps \<noteq> [] \<and> last new_comps = ''..'')
        then normpath_loop initial_slashes (new_comps @ [cmp]) comps
      else if new_comps \<noteq> [] then normpath_loop initial_slashes (butlast new_comps) comps
      else normpath_loop initial_slashes new_comps comps)"

definition initial_slashes :: "string \<Rightarrow> nat" where
  "initial_slashes path =
     (if prefix ''/'' path then (if prefix ''//'' path \<and> \<not> prefix ''///'' path then 2 else 1)
      else 0)"

definition normpath :: "string \<Rightarrow> string" where
  "normpath path =
     (if path = [] then ''.''
      else let n = initial_slashes path;
               comps = normpath_loop (0 < n) [] (split_sep CHR ''/'' path);
               path' = replicate n CHR ''/'' @ join_sep CHR ''/'' comps
           in if path' = [] then ''.'' else path')"

definition abspath :: "string \<Rightarrow> string \<Rightarrow> string" where
  "abspath cwd path = normpath (if \<not> isabs path then os_path_join cwd path else path)"

text \<open>\<open>os.path.dirname\<close> and \<open>os.path.basename\<close>: split at the last slash.\<close>

definition rstrip_sep :: "string \<Rightarrow> string" where
  "rstrip_sep s = rev (dropWhile (\<lambda>c. c = CHR ''/'') (rev s))"

definition dirname :: "string \<Rightarrow> string" where
  "dirname p =
     (let head = rev (dropWhile (\<lambda>c. c \<noteq> CHR ''/'') (rev p))
      in if head \<noteq> [] \<and> head \<noteq> replicate (length head) CHR ''/'' then rstrip_sep head else head)"

definition basename :: "string \<Rightarrow> string" where
  "basename p = rev (takeWhile (\<lambda>c. c \<noteq> CHR ''/'') (rev p))"

text \<open>
  \<open>os.path.relpath(path, start)\<close>; \<open>None\<close> is the \<open>ValueError\<close> raised for an empty path.
  \<open>commonprefix\<close> of two lists is their longest common prefix.
\<close>

definition path_parts :: "string \<Rightarrow> string list" where
  "path_parts p = filter (\<lambda>x. x \<noteq> []) (split_sep CHR ''/'' p)"

fun commonprefix :: "'a list \<Rightarrow> 'a list \<Rightarrow> 'a list" where
  "commonprefix (x # xs) (y # ys) = (if x = y then x # commonprefix xs ys else [])"
| "commonprefix _ _ = []"

definition relpath :: "string \<Rightarrow> string \<Rightarrow> string \<Rightarrow> string option" where
  "relpath cwd path start =
     (if path = [] then None
      else let start_list = path_parts (abspath cwd start);
               path_list = path_parts (abspath cwd path);
               i = length (commonprefix start_list path_list);
               rel_list = replicate (length start_list - i) ''..'' @ drop i path_list
           in if rel_list = [] then Some ''.'' else Some (os_path_join_all rel_list))"

text \<open>
  \<open>pathlib.Path(p).parts\<close>: the root (\<open>//\<close> when there are exactly two leading slashes),
  then the components that are neither empty nor \<open>.\<close>.
\<close>

definition pathlib_parts :: "string \<Rightarrow> string list" where
  "pathlib_parts p =
     (let stripped = dropWhile (\<lambda>c. c = CHR ''/'') p;
          k = length p - length stripped;
          root = (if k = 0 then [] else if k = 2 then [''//''] else [''/''])
      in root @ filter (\<lambda>x. x \<noteq> [] \<and> x \<noteq> ''.'') (split_sep CHR ''/'' stripped))"

text \<open>
  \<open>fnmatch.fnmatch(name, pat)\<close> on POSIX (no case folding): the pattern is read into
  items, \<open>*\<close> matches any run of characters (slashes included), \<open>?\<close> one character,
  \<open>[seq]\<close> and \<open>[!seq]\<close> a character set with ranges; a \<open>[\<close> without a closing bracket
  is literal. The whole name must match.
\<close>

datatype glob_item = Star | AnyChar | Lit char | Bracket bool "(char \<times> char) list"

fun class_items :: "string \<Rightarrow> (char \<times> char) list" where
  "class_items (a # b # c # rest) =
     (if b = CHR ''-'' then (a, c) # class_items rest else (a, a) # class_items (b # c # rest))"
| "class_items (a # rest) = (a, a) # class_items rest"
| "class_items [] = []"

definition bracket_split :: "string \<Rightarrow> (string \<times> string) option" where
  "bracket_split s =
     (let neg = (if prefix ''!'' s then ''!'' else []);
          s1 = drop (length neg) s;
          br = (if prefix '']'' s1 then '']'' else []);
          s2 = drop (length br) s1;
          body = takeWhile (\<lambda>c. c \<noteq> CHR '']'') s2;
          rest = dropWhile (\<lambda>c. c \<noteq> CHR '']'') s2
      in if rest = [] then None else Some (neg @ br @ body, tl rest))"

function translate :: "string \<Rightarrow> glob_item list" where
  "translate [] = []"
| "translate (c # pat) =
     (if c = CHR ''*'' then Star # translate pat
      else if c = CHR ''?'' then AnyChar # translate pat
      else if c = CHR ''['' then
        (case bracket_split pat of
           None \<Rightarrow> Lit c # translate pat
         | Some (stuff, rest) \<Rightarrow>
             (if prefix ''!'' stuff then Bracket True (class_items (tl stuff))
              else Bracket False (class_items stuff)) # translate (drop (length pat - length rest) pat))
      else Lit c # translate pat)"
  by pat_completeness auto
termination
  by (relation "measure length") auto

declare translate.simps [simp del]

definition in_class :: "(char \<times> char) list \<Rightarrow> char \<Rightarrow> bool" where
  "in_class items c = list_ex (\<lambda>(lo, hi). of_char lo \<le> (of_char c :: nat) \<and> (of_char c :: nat) \<le> of_char hi) items"

fun glob_match :: "glob_item list \<Rightarrow> string \<Rightarrow> bool" where
  "glob_match [] s = (s = [])"
| "glob_match (Star # ps) [] = glob_match ps []"
| "glob_match (Star # ps) (c # cs) = (glob_match ps (c # cs) \<or> glob_match (Star # ps) cs)"
| "glob_match (AnyChar # ps) [] = False"
| "glob_match (AnyChar # ps) (c # cs) = glob_match ps cs"
| "glob_match (Lit a # ps) [] = False"
| "glob_match (Lit a # ps) (c # cs) = (a = c \<and> glob_match ps cs)"
| "glob_match (Bracket neg items # ps) [] = False"
| "glob_match (Bracket neg items # ps) (c # cs) = ((in_class items c \<noteq> neg) \<and> glob_match ps cs)"

definition fnmatch :: "string \<Rightarrow> string \<Rightarrow> bool" where
  "fnmatch name pat = glob_match (translate pat) name"

section \<open>PathGuard: \<open>utils/path_validator.py\<close>\<close>

text \<open>
  The fields of \<open>PathValidator\<close>. \<open>ignore_patterns\<close> is the list read from the ignore file;
  \<open>cwd\<close> is the working directory of the process, which \<open>os.path.abspath\<close> and
  \<open>os.path.relpath\<close> consult.
\<close>

record PathValidator =
  allowed_folders :: "string list"
  repo_path :: string
  ignore_patterns :: "string list"
  cwd :: string

text \<open>\<open>__init__\<close>: the repository path is made absolute.\<close>

definition PathValidator_init :: "string \<Rightarrow> string list \<Rightarrow> string list \<Rightarrow> string \<Rightarrow> PathValidator" where
  "PathValidator_init wd folders patterns repo =
     \<lparr>allowed_folders = folders, repo_path = abspath wd repo, ignore_patterns = patterns, cwd = wd\<rparr>"

text \<open>The three rejections of \<open>validate_path\<close>, each with the path its message prints.\<close>

datatype access_error = TraversalError string | IgnoredError string | AccessDeniedError string

fun access_error_message :: "access_error \<Rightarrow> string" where
  "access_error_message (TraversalError original_path) = ''Path traversal not allowed: '' @ original_path"
| "access_error_message (IgnoredError norm_path) = ''Path is ignored by .toolignore: '' @ norm_path"
| "access_error_message (AccessDeniedError norm_path) = ''Path is not in allowed folders: '' @ norm_path"

text \<open>
  \<open>is_path_ignored\<close>: for each pattern, the whole normalised path is matched, then every
  partial path \<open>os.path.join(*parts[:i])\<close> for \<open>i\<close> in \<open>range(1, len(parts) + 1)\<close>.
\<close>

definition partial_paths :: "string \<Rightarrow> string list" where
  "partial_paths norm_path =
     (let parts = pathlib_parts norm_path
      in map (\<lambda>i. os_path_join_all (take i parts)) [1 ..< length parts + 1])"

definition is_path_ignored :: "PathValidator \<Rightarrow> string \<Rightarrow> bool" where
  "is_path_ignored v path =
     (let norm_path = normpath path
      in list_ex (\<lambda>pattern. fnmatch norm_path pattern
                    \<or> list_ex (\<lambda>partial_path. fnmatch partial_path pattern) (partial_paths norm_path))
           (ignore_patterns v))"

text \<open>\<open>is_path_allowed\<close>; \<open>within\<close> is the test \<open>not rel.startswith('..')\<close> on a relative path.\<close>

definition within :: "string \<Rightarrow> string \<Rightarrow> string \<Rightarrow> bool" where
  "within wd norm_path start =
     (case relpath wd norm_path start of
        None \<Rightarrow> False
      | Some rel_path \<Rightarrow> \<not> prefix ''..'' rel_path)"

definition allowed_path :: "PathValidator \<Rightarrow> string \<Rightarrow> string" where
  "allowed_path v allowed_folder =
     (if \<not> isabs allowed_folder then normpath (os_path_join (repo_path v) allowed_folder)
      else normpath allowed_folder)"

definition in_allowed_folder :: "PathValidator \<Rightarrow> string \<Rightarrow> string \<Rightarrow> bool" where
  "in_allowed_folder v norm_path allowed_folder =
     (let ap = allowed_path v allowed_folder
      in norm_path = ap \<or> prefix (ap @ ''/'') norm_path \<or> within (cwd v) norm_path ap)"

definition is_path_allowed :: "PathValidator \<Rightarrow> string \<Rightarrow> bool" where
  "is_path_allowed v path =
     (let norm_path = normpath path; repo_dir = repo_path v
      in if norm_path = repo_dir \<or> norm_path = ''.'' then True
         else if dirname norm_path = [] \<or> dirname norm_path = ''.'' then True
         else if within (cwd v) norm_path repo_dir then True
         else if allowed_folders v = [] then False
         else list_ex (in_allowed_folder v norm_path) (allowed_folders v))"

text \<open>\<open>validate_path\<close>: \<open>Inr\<close> carries the normalised path of a valid input.\<close>

definition resolve_path :: "PathValidator \<Rightarrow> string \<Rightarrow> string" where
  "resolve_path v path =
     (let path1 = (if prefix ''/'' path then (if 1 < length path then tl path else ''.'') else path);
          path2 = (if \<not> isabs path1 then os_path_join (repo_path v) path1 else path1)
      in normpath path2)"

definition validate_path :: "PathValidator \<Rightarrow> string \<Rightarrow> access_error + string" where
  "validate_path v path =
     (let original_path = path;
          norm_path = resolve_path v path
      in if ''..'' \<in> set (split_sep CHR ''/'' norm_path) then Inl (TraversalError original_path)
         else if is_path_ignored v norm_path then Inl (IgnoredError norm_path)
         else if \<not> is_path_allowed v norm_path then Inl (AccessDeniedError norm_path)
         else Inr norm_path)"

section \<open>Files and text\<close>

text \<open>
  The file store maps the path of a regular file to its bytes. Directories, permissions and
  disk failures are outside the model: a path is either a regular file or absent, and every
  write, copy and removal of the source succeeds on it.

  The text that the editor reads from a file and writes to it is represented by its UTF-8
  encoding. Opening a file with \<open>encoding='utf-8'\<close> and reading it raises
  \<open>UnicodeDecodeError\<close> when the bytes are not valid UTF-8 (\<open>utf8_valid\<close>, the strict
  decoder: no overlong forms, no surrogates, nothing above U+10FFFF); otherwise the text is
  the bytes with universal newlines (\<open>\r\n\<close> and \<open>\r\<close> become \<open>\n\<close>). Text written on POSIX is
  stored as it is. Counting and replacing a non-empty valid encoding inside a valid encoding
  finds the occurrences that Python finds on the characters, because UTF-8 is
  self-synchronising.
\<close>

type_synonym file_store = "string \<rightharpoonup> string"

definition continuation_byte :: "char \<Rightarrow> bool" where
  "continuation_byte b \<longleftrightarrow> 0x80 \<le> (of_char b :: nat) \<and> (of_char b :: nat) \<le> 0xBF"

fun utf8_valid :: "string \<Rightarrow> bool" where
  "utf8_valid [] = True"
| "utf8_valid (a # rest) =
     (let n = (of_char a :: nat) in
      if n < 0x80 then utf8_valid rest
      else if 0xC2 \<le> n \<and> n \<le> 0xDF then
        (case rest of
           b # r \<Rightarrow> continuation_byte b \<and> utf8_valid r
         | _ \<Rightarrow> False)
      else if 0xE0 \<le> n \<and> n \<le> 0xEF then
        (case rest of
           b # c # r \<Rightarrow>
             continuation_byte b \<and> continuation_byte c
             \<and> (n = 0xE0 \<longrightarrow> 0xA0 \<le> (of_char b :: nat))
             \<and> (n = 0xED \<longrightarrow> (of_char b :: nat) \<le> 0x9F)
             \<and> utf8_valid r
         | _ \<Rightarrow> False)
      else if 0xF0 \<le> n \<and> n \<le> 0xF4 then
        (case rest of
           b # c # d # r \<Rightarrow>
             continuation_byte b \<and> continuation_byte c \<and> continuation_byte d
             \<and> (n = 0xF0 \<longrightarrow> 0x90 \<le> (of_char b :: nat))
             \<and> (n = 0xF4 \<longrightarrow> (of_char b :: nat) \<le> 0x8F)
             \<and> utf8_valid r
         | _ \<Rightarrow> False)
      else False)"

fun universal_newlines :: "string \<Rightarrow> string" where
  "universal_newlines (c # d # cs) =
     (if c = CHR 0x0D \<and> d = CHR 0x0A then CHR 0x0A # universal_newlines cs
      else if c = CHR 0x0D then CHR 0x0A # universal_newlines (d # cs)
      else c # universal_newlines (d # cs))"
| "universal_newlines [c] = (if c = CHR 0x0D then [CHR 0x0A] else [c])"
| "universal_newlines [] = []"

text \<open>\<open>f.readlines()\<close>: the lines of a text, each with its line end.\<close>

fun keepends :: "string \<Rightarrow> string list" where
  "keepends [] = []"
| "keepends (c # cs) =
     (if c = CHR 0x0A then [c] # keepends cs
      else (case keepends cs of [] \<Rightarrow> [[c]] | l # ls \<Rightarrow> (c # l) # ls))"

definition readlines :: "string \<Rightarrow> string list" where
  "readlines bytes = keepends (universal_newlines bytes)"

text \<open>
  \<open>s.count(sub)\<close> counts the occurrences of \<open>sub\<close> from left to right without overlap, and
  \<open>s.replace(old, new)\<close> replaces exactly those; for the empty string Python counts and
  replaces at every position.
\<close>

function count_from :: "string \<Rightarrow> string \<Rightarrow> nat" where
  "count_from sub [] = 0"
| "count_from sub (c # cs) =
     (if sub \<noteq> [] \<and> prefix sub (c # cs) then Suc (count_from sub (drop (length sub) (c # cs)))
      else count_from sub cs)"
  by pat_completeness auto
termination
  by (relation "measure (\<lambda>(sub, s). length s)") auto

definition str_count :: "string \<Rightarrow> string \<Rightarrow> nat" where
  "str_count s sub = (if sub = [] then length s + 1 else count_from sub s)"

function replace_from :: "string \<Rightarrow> string \<Rightarrow> string \<Rightarrow> string" where
  "replace_from old new [] = []"
| "replace_from old new (c # cs) =
     (if old \<noteq> [] \<and> prefix old (c # cs) then new @ replace_from old new (drop (length old) (c # cs))
      else c # replace_from old new cs)"
  by pat_completeness auto
termination
  by (relation "measure (\<lambda>(old, new, s). length s)") auto

definition str_replace :: "string \<Rightarrow> string \<Rightarrow> string \<Rightarrow> string" where
  "str_replace s old new =
     (if old = [] then new @ concat (map (\<lambda>c. c # new) s) else replace_from old new s)"

section \<open>Editor: \<open>tools/text_editor_tool.py\<close>\<close>

text \<open>
  An entry of \<open>last_edits\<close>. Every entry the tool stores has the key \<open>old_content\<close>; the
  field is optional because \<open>_handle_undo_edit\<close> tests for the key.
\<close>

record edit_record =
  backup_path :: string
  operation :: string
  old_content :: "string option"
  new_content :: string

text \<open>The tool: the file store it works on, its \<open>last_edits\<close> and its backup directory.\<close>

record editor =
  files :: file_store
  last_edits :: "string \<rightharpoonup> edit_record"
  backup_dir :: string

text \<open>The parameters of a call that the handlers read with \<open>params.get\<close>.\<close>

record params =
  old_str :: "string option"
  new_str :: "string option"
  confirm :: "bool option"
  file_text :: "string option"

definition get_default :: "'a option \<Rightarrow> 'a \<Rightarrow> 'a" where
  "get_default x d = (case x of None \<Rightarrow> d | Some y \<Rightarrow> y)"

text \<open>The exceptions that \<open>_handle_str_replace\<close> catches while it reads the file.\<close>

datatype py_exception = FileNotFoundError | UnicodeDecodeError

text \<open>One constructor for each message a handler returns, with the values the message prints.\<close>

datatype edit_result =
    FileNotFound string
  | OldStrRequired
  | TextNotFound
  | MultipleMatches nat
  | ConfirmEdit string string string
  | Replaced
  | ReplaceError py_exception
  | AlreadyExists string
  | ConfirmCreate string string
  | Created string
  | NoHistory string
  | UndoneCreate string
  | UndoneFromBackup string
  | UndoneFromStored string
  | UndoUnavailable string

text \<open>
  The message of each result. \<open>udiff path old new\<close> stands for the text of
  \<open>difflib.unified_diff\<close> on the lines of the old and new content with three lines of context.
  \<open>str_e e\<close> stands for the text \<open>str(e)\<close> of a caught exception.
\<close>

fun edit_message ::
  "(string \<Rightarrow> string \<Rightarrow> string \<Rightarrow> string) \<Rightarrow> (py_exception \<Rightarrow> string) \<Rightarrow> edit_result \<Rightarrow> string" where
  "edit_message udiff str_e (FileNotFound path) = ''Error: File '' @ [CHR 0x27] @ path @ [CHR 0x27] @ '' not found''"
| "edit_message udiff str_e OldStrRequired = ''Error: old_str parameter is required''"
| "edit_message udiff str_e TextNotFound = ''Error: The text to replace was not found in the file''"
| "edit_message udiff str_e (MultipleMatches k) =
     ''Error: The text to replace was found multiple times ('' @ str_nat k @
     ''). Please provide more context to make the replacement unique.''"
| "edit_message udiff str_e (ConfirmEdit path content new) =
     ''CONFIRM_EDIT\<newline>\<newline>Proposed changes:\<newline>\<newline>'' @ udiff path content new @
     ''\<newline>\<newline>Do you want to apply these changes? (yes/no)''"
| "edit_message udiff str_e Replaced = ''Successfully replaced text at exactly one location.''"
| "edit_message udiff str_e (ReplaceError e) = ''Error replacing text: '' @ str_e e"
| "edit_message udiff str_e (AlreadyExists path) = ''Error: File '' @ [CHR 0x27] @ path @ [CHR 0x27] @ '' already exists''"
| "edit_message udiff str_e (ConfirmCreate path preview) =
     ''CONFIRM_EDIT\<newline>\<newline>Proposed file creation '' @ [CHR 0x27] @ path @ [CHR 0x27] @ '':\<newline>\<newline>'' @ preview @
     ''\<newline>\<newline>Do you want to create this file? (yes/no)''"
| "edit_message udiff str_e (Created path) = ''Successfully created file '' @ [CHR 0x27] @ path @ [CHR 0x27] @ ''.''"
| "edit_message udiff str_e (NoHistory path) = ''Error: No previous edits found for '' @ [CHR 0x27] @ path @ [CHR 0x27]"
| "edit_message udiff str_e (UndoneCreate path) =
     ''Successfully undid file creation by deleting '' @ [CHR 0x27] @ path @ [CHR 0x27] @ ''.''"
| "edit_message udiff str_e (UndoneFromBackup path) =
     ''Successfully undid changes to '' @ [CHR 0x27] @ path @ [CHR 0x27] @ '' from backup.''"
| "edit_message udiff str_e (UndoneFromStored path) =
     ''Successfully undid changes to '' @ [CHR 0x27] @ path @ [CHR 0x27] @ '' from stored content.''"
| "edit_message udiff str_e (UndoUnavailable path) =
     ''Error: Could not undo changes to '' @ [CHR 0x27] @ path @ [CHR 0x27] @ ''. No backup or stored content available.''"

text \<open>The caller recognises a pending confirmation by \<open>content.startswith("CONFIRM_EDIT")\<close>.\<close>

definition pending_confirmation :: "string \<Rightarrow> bool" where
  "pending_confirmation content = prefix ''CONFIRM_EDIT'' content"

text \<open>\<open>_create_backup\<close>: copies the file to \<open><backup_dir>/<basename>.bak\<close> and returns that path.\<close>

definition backup_filename :: "editor \<Rightarrow> string \<Rightarrow> string" where
  "backup_filename s file_path = os_path_join (backup_dir s) (basename file_path @ ''.bak'')"

definition create_backup :: "editor \<Rightarrow> string \<Rightarrow> string \<times> editor" where
  "create_backup s file_path =
     (case files s file_path of
        None \<Rightarrow> ([], s)
      | Some bytes \<Rightarrow>
          (backup_filename s file_path,
           s\<lparr>files := (files s)(backup_filename s file_path \<mapsto> bytes)\<rparr>))"

text \<open>
  \<open>_handle_str_replace\<close>. The backup is made before the \<open>try\<close> block; inside it the file is
  opened and decoded, and an exception there becomes the \<open>Error replacing text\<close> message.
\<close>

definition handle_str_replace :: "editor \<Rightarrow> string \<Rightarrow> params \<Rightarrow> edit_result \<times> editor" where
  "handle_str_replace s path ps =
     (if files s path = None then (FileNotFound path, s)
      else
        let old = get_default (old_str ps) [];
            new = get_default (new_str ps) [];
            conf = get_default (confirm ps) True
        in if old = [] then (OldStrRequired, s)
           else
             let (bpath, s1) = create_backup s path
             in (case files s1 path of
                   None \<Rightarrow> (ReplaceError FileNotFoundError, s1)
                 | Some bytes \<Rightarrow>
                     if \<not> utf8_valid bytes then (ReplaceError UnicodeDecodeError, s1)
                     else
                       let content = universal_newlines bytes
                       in if str_count content old = 0 then (TextNotFound, s1)
                          else if 1 < str_count content old then (MultipleMatches (str_count content old), s1)
                          else
                            let new_content = str_replace content old new
                            in if conf then (ConfirmEdit path content new_content, s1)
                               else
                                 (Replaced,
                                  s1\<lparr>files := (files s1)(path \<mapsto> new_content),
                                     last_edits := (last_edits s1)(path \<mapsto>
                                       \<lparr>backup_path = bpath, operation = ''str_replace'',
                                        old_content = Some content, new_content = new_content\<rparr>)\<rparr>)))"

text \<open>\<open>_handle_create\<close>; the parent directories it makes are not part of the file store.\<close>

definition handle_create :: "editor \<Rightarrow> string \<Rightarrow> params \<Rightarrow> edit_result \<times> editor" where
  "handle_create s path ps =
     (let text = get_default (file_text ps) [];
          conf = get_default (confirm ps) True
      in if files s path \<noteq> None then (AlreadyExists path, s)
         else if conf then
           (ConfirmCreate path (if 1000 < length text then take 1000 text @ ''...'' else text), s)
         else
           (Created path,
            s\<lparr>files := (files s)(path \<mapsto> text),
              last_edits := (last_edits s)(path \<mapsto>
                \<lparr>backup_path = [], operation = ''create'', old_content = Some [], new_content = text\<rparr>)\<rparr>))"

text \<open>\<open>_handle_undo_edit\<close>.\<close>

definition handle_undo_edit :: "editor \<Rightarrow> string \<Rightarrow> edit_result \<times> editor" where
  "handle_undo_edit s path =
     (case last_edits s path of
        None \<Rightarrow> (NoHistory path, s)
      | Some last_edit \<Rightarrow>
          if operation last_edit = ''create'' then
            (UndoneCreate path, s\<lparr>files := (files s)(path := None)\<rparr>)
          else
            (case (if backup_path last_edit \<noteq> [] then files s (backup_path last_edit) else None) of
               Some saved \<Rightarrow> (UndoneFromBackup path, s\<lparr>files := (files s)(path \<mapsto> saved)\<rparr>)
             | None \<Rightarrow>
                 (case old_content last_edit of
                    Some stored \<Rightarrow> (UndoneFromStored path, s\<lparr>files := (files s)(path \<mapsto> stored)\<rparr>)
                  | None \<Rightarrow> (UndoUnavailable path, s))))"

section \<open>Finder: \<open>tools/search_tool.py\<close> and the match limits of \<open>utils/output_limiter.py\<close>\<close>

datatype context_line = ContextLine (ctx_line_number: nat) (ctx_content: string) (ctx_is_match: bool)

datatype content_match =
  ContentMatch (match_line_number: nat) (match_content: string) (match_context: "context_line list")

text \<open>
  A result dictionary keeps its keys in insertion order; assigning to a key that is present
  replaces the value in place, which is \<^const>\<open>AList.update\<close>.
\<close>

type_synonym search_results = "(string \<times> content_match list) list"

definition is_space :: "char \<Rightarrow> bool" where
  "is_space c = ((9 \<le> (of_char c :: nat) \<and> (of_char c :: nat) \<le> 13)
                 \<or> (28 \<le> (of_char c :: nat) \<and> (of_char c :: nat) \<le> 32))"

definition rstrip :: "string \<Rightarrow> string" where
  "rstrip s = rev (dropWhile is_space (rev s))"

definition lower_char :: "char \<Rightarrow> char" where
  "lower_char c =
     (if 65 \<le> (of_char c :: nat) \<and> (of_char c :: nat) \<le> 90 then char_of (of_char c + (32 :: nat)) else c)"

fun contains :: "string \<Rightarrow> string \<Rightarrow> bool" where
  "contains [] sub = (sub = [])"
| "contains (c # cs) sub = (prefix sub (c # cs) \<or> contains cs sub)"

text \<open>
  \<open>pattern.search(line)\<close> for the escaped query: a literal substring test, on the ASCII
  lower-case forms when the search ignores case.
\<close>

definition line_matches :: "string \<Rightarrow> bool \<Rightarrow> string \<Rightarrow> bool" where
  "line_matches query case_sensitive line =
     (if case_sensitive then contains line query
      else contains (map lower_char line) (map lower_char query))"

text \<open>\<open>_search_file_content\<close>, on the lines of the file.\<close>

definition match_at :: "string list \<Rightarrow> nat \<Rightarrow> content_match" where
  "match_at lines i =
     ContentMatch (i + 1) (rstrip (lines ! i))
       (map (\<lambda>j. ContextLine (j + 1) (rstrip (lines ! j)) (j = i))
          [i - 2 ..< min (length lines) (i + 3)])"

definition search_file_content :: "string \<Rightarrow> string \<Rightarrow> bool \<Rightarrow> content_match list" where
  "search_file_content query bytes case_sensitive =
     (let lines = readlines bytes
      in concat (map (\<lambda>i. if line_matches query case_sensitive (lines ! i) then [match_at lines i] else [])
                   [0 ..< length lines]))"

text \<open>
  \<open>get_all_files\<close>: \<open>os.walk\<close> over a directory tree, top down; ignored subdirectories are
  pruned before the walk descends, and a file is kept when it is not ignored and is allowed.
\<close>

datatype dir_tree = DirTree (subdirs: "(string \<times> dir_tree) list") (file_names: "string list")

fun walk_files :: "PathValidator \<Rightarrow> string \<Rightarrow> dir_tree \<Rightarrow> string list" where
  "walk_files v root (DirTree dirs fs) =
     filter (\<lambda>file_path. \<not> is_path_ignored v file_path \<and> is_path_allowed v file_path)
       (map (os_path_join root) fs)
     @ concat (map (\<lambda>(d, t). if is_path_ignored v (os_path_join root d) then []
                              else walk_files v (os_path_join root d) t) dirs)"

definition get_all_files :: "PathValidator \<Rightarrow> dir_tree \<Rightarrow> string \<Rightarrow> string list" where
  "get_all_files v tree directory =
     walk_files v (if \<not> isabs directory then os_path_join (repo_path v) directory else directory) tree"

text \<open>\<open>OutputLimiter.limit_content_matches\<close>: the loop over \<open>results.items()\<close>.\<close>

fun limit_loop :: "int \<Rightarrow> int \<Rightarrow> search_results \<Rightarrow> int \<Rightarrow> search_results \<Rightarrow> search_results" where
  "limit_loop max_total_matches max_matches_per_file limited_results total_matches [] = limited_results"
| "limit_loop max_total_matches max_matches_per_file limited_results total_matches ((file_path, matches) # rest) =
     (let file_matches = slice_to matches max_matches_per_file;
          limited_results' = AList.update file_path file_matches limited_results;
          total_matches' = total_matches + int (length file_matches)
      in if max_total_matches \<le> total_matches' then limited_results'
         else limit_loop max_total_matches max_matches_per_file limited_results' total_matches' rest)"

definition limit_content_matches :: "search_results \<Rightarrow> int \<Rightarrow> int \<Rightarrow> search_results" where
  "limit_content_matches results max_total_matches max_matches_per_file =
     limit_loop max_total_matches max_matches_per_file [] 0 results"

text \<open>
  \<open>_search_content_in_files\<close>: the loop over the files; a file that is missing, larger than
  1 MiB or has a null byte in its first 1024 bytes is skipped.
\<close>

fun search_loop ::
  "file_store \<Rightarrow> string \<Rightarrow> bool \<Rightarrow> int \<Rightarrow> int \<Rightarrow> search_results \<Rightarrow> int \<Rightarrow> string list \<Rightarrow> search_results" where
  "search_loop fs query case_sensitive max_results max_per_file results total_matches [] = results"
| "search_loop fs query case_sensitive max_results max_per_file results total_matches (file_path # rest) =
     (case fs file_path of
        None \<Rightarrow> search_loop fs query case_sensitive max_results max_per_file results total_matches rest
      | Some bytes \<Rightarrow>
          if 1024 * 1024 < length bytes then
            search_loop fs query case_sensitive max_results max_per_file results total_matches rest
          else if CHR 0x00 \<in> set (take 1024 bytes) then
            search_loop fs query case_sensitive max_results max_per_file results total_matches rest
          else
            let file_matches = search_file_content query bytes case_sensitive
            in if file_matches \<noteq> [] then
                 let file_matches' = slice_to file_matches max_per_file;
                     results' = AList.update file_path file_matches' results;
                     total_matches' = total_matches + int (length file_matches')
                 in if max_results \<le> total_matches' then results'
                    else search_loop fs query case_sensitive max_results max_per_file results' total_matches' rest
               else search_loop fs query case_sensitive max_results max_per_file results total_matches rest)"

definition search_content_in_files ::
  "PathValidator \<Rightarrow> dir_tree \<Rightarrow> file_store \<Rightarrow> string \<Rightarrow> string \<Rightarrow> bool \<Rightarrow> int \<Rightarrow> int \<Rightarrow> search_results" where
  "search_content_in_files v tree fs query directory case_sensitive max_results max_per_file =
     (let all_files = get_all_files v tree directory;
          results = search_loop fs query case_sensitive max_results max_per_file [] 0 all_files
      in limit_content_matches results max_results max_per_file)"

definition total_matches_of :: "search_results \<Rightarrow> nat" where
  "total_matches_of results = sum_list (map (\<lambda>(file_path, matches). length matches) results)"

section \<open>Example states\<close>

text \<open>A tool with one file \<open>/repo/a.txt\<close> (a CRLF line end inside), no history, and its backup directory.\<close>

definition demo_editor :: editor where
  "demo_editor =
     \<lparr>files = [''/repo/a.txt'' \<mapsto> ''hello'' @ [CHR 0x0D, CHR 0x0A] @ ''world''],
      last_edits = Map.empty,
      backup_dir = ''/repo/.backups''\<rparr>"

definition demo_params :: "string \<Rightarrow> string \<Rightarrow> bool \<Rightarrow> params" where
  "demo_params old new conf = \<lparr>old_str = Some old, new_str = Some new, confirm = Some conf, file_text = Some new\<rparr>"

text \<open>A validator for the repository \<open>/repo\<close> that ignores \<open>build\<close> and \<open>*.log\<close>.\<close>

definition demo_validator :: PathValidator where
  "demo_validator = PathValidator_init ''/home/user'' [] [''build'', ''*.log''] ''/repo''"

text \<open>The same with the sibling directory \<open>../shared\<close> as an additional allowed folder.\<close>

definition demo_validator_shared :: PathValidator where
  "demo_validator_shared = PathValidator_init ''/home/user'' [''../shared''] [''build'', ''*.log''] ''/repo''"

text \<open>A repository with two text files that mention \<open>foo\<close> on three lines and on one line.\<close>

definition demo_tree :: dir_tree where
  "demo_tree = DirTree [(''sub'', DirTree [] [''b.txt''])] [''a.txt'']"

definition demo_files :: file_store where
  "demo_files =
     [''/repo/a.txt'' \<mapsto> ''foo 1\<newline>Foo 2\<newline>bar\<newline>foo 3\<newline>'',
      ''/repo/sub/b.txt'' \<mapsto> ''x\<newline>foo'']"

text \<open>The example tool after a committed replacement in \<open>/repo/a.txt\<close>, and after a committed creation of \<open>/repo/new.txt\<close>.\<close>

definition demo_edited :: editor where
  "demo_edited = snd (handle_str_replace demo_editor ''/repo/a.txt'' (demo_params ''hello'' ''bye'' False))"

definition demo_created :: editor where
  "demo_created = snd (handle_create demo_editor ''/repo/new.txt'' (demo_params [] ''text'' False))"

section \<open>Notions used in the statements\<close>

text \<open>
  A component that \<open>normpath\<close> keeps in an absolute path: not empty, without a slash, and
  neither \<open>.\<close> nor \<open>..\<close>.
\<close>

definition plain_component :: "string \<Rightarrow> bool" where
  "plain_component x \<longleftrightarrow> x \<noteq> [] \<and> CHR ''/'' \<notin> set x \<and> x \<noteq> ''.'' \<and> x \<noteq> ''..''"

text \<open>
  \<open>path_under root p\<close>: the path \<open>p\<close> is \<open>root\<close> or a descendant of \<open>root\<close>, that is, the
  components of \<open>root\<close> are an initial segment of the components of \<open>p\<close>. Paths with the
  same components name the same directory (\<open>//repo\<close> and \<open>/repo\<close> on Linux).
\<close>

definition path_under :: "string \<Rightarrow> string \<Rightarrow> bool" where
  "path_under root p \<longleftrightarrow> prefix (path_parts root) (path_parts p)"

text \<open>
  The number of occurrences of \<open>sub\<close> in \<open>content\<close>: the number of positions at which
  \<open>sub\<close> starts, that is, of suffixes of \<open>content\<close> that begin with \<open>sub\<close>. Occurrences may
  overlap; \<open>overlap_free\<close> says that none do: no occurrence starts inside another.
\<close>

definition occurrences :: "string \<Rightarrow> string \<Rightarrow> nat" where
  "occurrences content sub = length (filter (prefix sub) (suffixes content))"

definition overlap_free :: "string \<Rightarrow> string \<Rightarrow> bool" where
  "overlap_free content sub \<longleftrightarrow>
     (\<forall>t\<in>set (suffixes content). prefix sub t \<longrightarrow> (\<forall>k\<in>{1 ..< length sub}. \<not> prefix sub (drop k t)))"

text \<open>
  The ancestor prefixes of a normalised absolute path: the root, then the path cut after
  each of its components, the last being the path itself.
\<close>

definition ancestor_prefixes :: "string \<Rightarrow> string list" where
  "ancestor_prefixes p =
     (let root = replicate (initial_slashes p) CHR ''/''; comps = path_parts p
      in map (\<lambda>i. root @ join_sep CHR ''/'' (take i comps)) [0 ..< length comps + 1])"

text \<open>A tool whose only file \<open>/repo/a.txt\<close> has the given bytes.\<close>

definition demo_editor_of :: "string \<Rightarrow> editor" where
  "demo_editor_of bytes =
     \<lparr>files = [''/repo/a.txt'' \<mapsto> bytes], last_edits = Map.empty, backup_dir = ''/repo/.backups''\<rparr>"

section \<open>Properties\<close>

subsection \<open>OutputGovernor\<close>

lemma truncate_text_within_budget:
  "int (length text) \<le> max_chars \<Longrightarrow> truncate_text text max_chars add_note = text"
  by (simp add: truncate_text_def)

lemma truncate_text_note_fits:
  assumes "max_chars < int (length text)"
    and "int (length (truncation_note max_chars text)) \<le> max_chars"
  shows "int (length (truncate_text text max_chars True)) = max_chars"
  using assms by (auto simp add: truncate_text_def slice_to_def Let_def min_def)

text \<open>
  Claim C8. \<open>truncate_text(s, N)\<close> is to return at most \<open>N\<close> characters, the note included,
  and \<open>s\<close> itself when \<open>len(s) \<le> N\<close>. The second half holds
  (\<open>truncate_text_within_budget\<close>), and so does the first when the note is no longer than
  \<open>N\<close> (\<open>truncate_text_note_fits\<close>). When the note is longer than \<open>N\<close> the slice bound
  \<open>max_chars - len(note)\<close> is negative, the slice of the already cut text is empty, and the
  whole note is returned: for a text of 20 characters and \<open>N = 10\<close> the result is the note of
  69 characters.
\<close>

theorem truncate_text_exceeds_budget:
  "truncate_text ''aaaaaaaaaaaaaaaaaaaa'' 10 True
     = ''\<newline>\<newline>[Output truncated to 10 characters. Original length: 20 characters]''
   \<and> length (truncate_text ''aaaaaaaaaaaaaaaaaaaa'' 10 True) = 69"
  by code_simp

subsection \<open>Editor: the backup file is never the edited file\<close>

lemma takeWhile_no_sep:
  "CHR ''/'' \<notin> set x \<Longrightarrow> takeWhile (\<lambda>c. c \<noteq> CHR ''/'') (rev x @ CHR ''/'' # ys) = rev x"
  by (induction x rule: rev_induct) auto

lemma takeWhile_no_sep_all:
  "CHR ''/'' \<notin> set x \<Longrightarrow> takeWhile (\<lambda>c. c \<noteq> CHR ''/'') (rev x) = rev x"
  by (induction x rule: rev_induct) auto

lemma basename_no_sep: "CHR ''/'' \<notin> set (basename p)"
  unfolding basename_def using set_takeWhileD by fastforce

lemma basename_append_sep: "CHR ''/'' \<notin> set x \<Longrightarrow> basename (d @ CHR ''/'' # x) = x"
  by (simp add: basename_def takeWhile_no_sep)

lemma basename_self: "CHR ''/'' \<notin> set x \<Longrightarrow> basename x = x"
  by (simp add: basename_def takeWhile_no_sep_all)

lemma basename_os_path_join:
  assumes "CHR ''/'' \<notin> set x"
  shows "basename (os_path_join d x) = x"
proof (cases "d = []")
  case True
  then show ?thesis using assms by (simp add: os_path_join_def basename_self)
next
  case False
  then obtain d' c where d: "d = d' @ [c]" by (metis rev_exhaust)
  have nx: "\<not> prefix ''/'' x" using assms by (cases x) auto
  show ?thesis
  proof (cases "c = CHR ''/''")
    case True
    then have "os_path_join d x = d' @ CHR ''/'' # x" using d nx by (simp add: os_path_join_def)
    then show ?thesis using assms by (simp add: basename_append_sep)
  next
    case False
    then have "os_path_join d x = d @ CHR ''/'' # x" using d nx by (simp add: os_path_join_def)
    then show ?thesis using assms by (simp add: basename_append_sep)
  qed
qed

lemma backup_filename_neq: "backup_filename s p \<noteq> p"
proof
  assume eq: "backup_filename s p = p"
  have "CHR ''/'' \<notin> set (basename p @ ''.bak'')" using basename_no_sep [of p] by simp
  then have "basename (backup_filename s p) = basename p @ ''.bak''"
    unfolding backup_filename_def by (rule basename_os_path_join)
  with eq show False by simp
qed

lemma backup_filename_nonempty: "backup_filename s p \<noteq> []"
  by (auto simp add: backup_filename_def os_path_join_def)

subsection \<open>Editor: \<open>str_replace\<close>\<close>

text \<open>
  Claim C10. On an existing file, \<open>str_replace\<close> with an empty \<open>old_str\<close> (or none) returns
  the message that the \<open>old_str\<close> parameter is required, before any backup is made; the
  file, and the whole state of the tool, is unchanged.
\<close>

theorem str_replace_empty_old_str:
  assumes "files s path = Some bytes"
    and "get_default (old_str ps) [] = []"
  shows "handle_str_replace s path ps = (OldStrRequired, s)
         \<and> edit_message udiff str_e (fst (handle_str_replace s path ps)) = ''Error: old_str parameter is required''
         \<and> files (snd (handle_str_replace s path ps)) path = Some bytes"
  using assms by (simp add: handle_str_replace_def)

theorem str_replace_empty_old_str_witness:
  "files demo_editor ''/repo/a.txt'' = Some (''hello'' @ [CHR 0x0D, CHR 0x0A] @ ''world'')
   \<and> get_default (old_str (demo_params [] ''x'' False)) [] = []
   \<and> handle_str_replace demo_editor ''/repo/a.txt'' (demo_params [] ''x'' False) = (OldStrRequired, demo_editor)"
  using str_replace_empty_old_str [of demo_editor "''/repo/a.txt''"
      "''hello'' @ [CHR 0x0D, CHR 0x0A] @ ''world''" "demo_params [] ''x'' False"]
  by (simp add: demo_editor_def demo_params_def get_default_def)

lemma create_backup_files:
  "files s path = Some bytes \<Longrightarrow>
   create_backup s path = (backup_filename s path, s\<lparr>files := (files s)(backup_filename s path \<mapsto> bytes)\<rparr>)"
  by (simp add: create_backup_def)

subsection \<open>Counting and replacing occurrences\<close>

lemma occurrences_Nil: "occurrences [] sub = (if sub = [] then 1 else 0)"
  by (simp add: occurrences_def)

lemma occurrences_Cons:
  "occurrences (c # cs) sub = occurrences cs sub + (if prefix sub (c # cs) then 1 else 0)"
  by (simp add: occurrences_def)

lemma occurrences_drop_le: "occurrences (drop k s) sub \<le> occurrences s sub"
proof (induction s arbitrary: k)
  case Nil
  then show ?case by simp
next
  case (Cons c cs)
  show ?case
  proof (cases k)
    case 0
    then show ?thesis by simp
  next
    case (Suc j)
    then show ?thesis using Cons [of j] by (simp add: occurrences_Cons)
  qed
qed

lemma count_from_le_occurrences: "count_from sub s \<le> occurrences s sub"
proof (induction sub s rule: count_from.induct)
  case (1 sub)
  then show ?case by simp
next
  case (2 sub c cs)
  show ?case
  proof (cases "sub \<noteq> [] \<and> prefix sub (c # cs)")
    case True
    then obtain n where n: "length sub = Suc n" by (cases sub) auto
    have "count_from sub (drop (length sub) (c # cs)) \<le> occurrences (drop n cs) sub"
      using 2(1) True n by simp
    also have "\<dots> \<le> occurrences cs sub" by (rule occurrences_drop_le)
    finally show ?thesis using True by (simp add: occurrences_Cons)
  next
    case False
    then show ?thesis using 2(2) by (auto simp add: occurrences_Cons)
  qed
qed

lemma count_from_zero_occurrences:
  "sub \<noteq> [] \<Longrightarrow> count_from sub s = 0 \<Longrightarrow> occurrences s sub = 0"
proof (induction sub s rule: count_from.induct)
  case (1 sub)
  then show ?case by (simp add: occurrences_Nil)
next
  case (2 sub c cs)
  then show ?case by (auto simp add: occurrences_Cons split: if_splits)
qed

lemma occurrences_skip:
  "(\<forall>k<m. \<not> prefix sub (drop k s)) \<Longrightarrow> sub \<noteq> [] \<Longrightarrow> occurrences (drop m s) sub = occurrences s sub"
proof (induction s arbitrary: m)
  case Nil
  then show ?case by simp
next
  case (Cons c cs)
  show ?case
  proof (cases m)
    case 0
    then show ?thesis by simp
  next
    case (Suc j)
    have "\<forall>k<j. \<not> prefix sub (drop k cs)"
    proof (intro allI impI)
      fix k assume "k < j"
      then have "\<not> prefix sub (drop (Suc k) (c # cs))" using Cons.prems(1) Suc by blast
      then show "\<not> prefix sub (drop k cs)" by simp
    qed
    moreover have "\<not> prefix sub (c # cs)" using Cons.prems(1) [rule_format, of 0] Suc by simp
    ultimately show ?thesis using Cons.IH [of j] Cons.prems(2) Suc by (simp add: occurrences_Cons)
  qed
qed

lemma suffixes_drop: "drop k s \<in> set (suffixes s)"
  by (simp add: in_set_suffixes suffix_drop)

lemma overlap_free_drop:
  assumes "overlap_free s sub"
  shows "overlap_free (drop k s) sub"
  unfolding overlap_free_def
proof (intro ballI impI)
  fix t j
  assume t: "t \<in> set (suffixes (drop k s))" "prefix sub t" "j \<in> {1 ..< length sub}"
  have "suffix t (drop k s)" using t(1) by (simp add: in_set_suffixes)
  then have "suffix t s" using suffix_drop suffix_order.trans by blast
  then have "t \<in> set (suffixes s)" by (simp add: in_set_suffixes)
  then show "\<not> prefix sub (drop j t)" using assms t unfolding overlap_free_def by blast
qed

lemma count_from_eq_occurrences:
  "sub \<noteq> [] \<Longrightarrow> overlap_free s sub \<Longrightarrow> count_from sub s = occurrences s sub"
proof (induction sub s rule: count_from.induct)
  case (1 sub)
  then show ?case by (simp add: occurrences_Nil)
next
  case (2 sub c cs)
  have tail: "overlap_free cs sub" using overlap_free_drop [OF 2(4), of 1] by simp
  show ?case
  proof (cases "prefix sub (c # cs)")
    case True
    obtain n where n: "length sub = Suc n" using 2(3) by (cases sub) auto
    have here: "c # cs \<in> set (suffixes (c # cs))" by simp
    have none: "\<forall>k<n. \<not> prefix sub (drop k cs)"
    proof (intro allI impI)
      fix k assume "k < n"
      then have "Suc k \<in> {1 ..< length sub}" using n by simp
      then have "\<not> prefix sub (drop (Suc k) (c # cs))"
        using 2(4) True here unfolding overlap_free_def by blast
      then show "\<not> prefix sub (drop k cs)" by simp
    qed
    have "count_from sub (drop (length sub) (c # cs)) = occurrences (drop n cs) sub"
      using 2(1) 2(3) True n overlap_free_drop [OF tail, of n] by simp
    also have "\<dots> = occurrences cs sub" using occurrences_skip [OF none 2(3)] .
    finally show ?thesis using True 2(3) by (simp add: occurrences_Cons)
  next
    case False
    then show ?thesis using 2(2) 2(3) tail by (simp add: occurrences_Cons)
  qed
qed

lemma count_from_one:
  assumes "sub \<noteq> []" "occurrences s sub = 1"
  shows "count_from sub s = 1"
proof -
  have "count_from sub s \<le> 1" using count_from_le_occurrences [of sub s] assms by simp
  moreover have "count_from sub s \<noteq> 0" using count_from_zero_occurrences [of sub s] assms by auto
  ultimately show ?thesis by simp
qed

lemma replace_from_none: "count_from old s = 0 \<Longrightarrow> replace_from old new s = s"
  by (induction old s rule: count_from.induct) (auto split: if_splits)

lemma occurrences_append_ge: "occurrences t sub \<le> occurrences (pre @ t) sub"
  using occurrences_drop_le [of "length pre" "pre @ t" sub] by simp

lemma occurrences_at_start:
  assumes "old \<noteq> []"
  shows "Suc (occurrences post old) \<le> occurrences (old @ post) old"
proof -
  obtain c o' where o: "old = c # o'" using assms by (cases old) auto
  have "occurrences post old \<le> occurrences (o' @ post) old" by (rule occurrences_append_ge)
  then show ?thesis by (simp add: o occurrences_Cons)
qed

lemma replace_from_single:
  "old \<noteq> [] \<Longrightarrow> occurrences (pre @ old @ post) old = 1 \<Longrightarrow>
   replace_from old new (pre @ old @ post) = pre @ new @ post"
proof (induction pre)
  case Nil
  obtain c o' where o: "old = c # o'" using Nil(1) by (cases old) auto
  have "occurrences post old = 0"
    using occurrences_at_start [OF Nil(1), of post] Nil(2) by simp
  then have "count_from old post = 0"
    using count_from_le_occurrences [of old post] by simp
  then have "replace_from old new post = post" by (rule replace_from_none)
  then show ?case using Nil(1) by (simp add: o)
next
  case (Cons c pre)
  have ge: "1 \<le> occurrences (pre @ old @ post) old"
    using occurrences_at_start [OF Cons(2), of post] occurrences_append_ge [of "old @ post" old pre]
    by linarith
  have tot: "occurrences (pre @ old @ post) old + (if prefix old (c # pre @ old @ post) then 1 else 0) = 1"
    using Cons(3) by (simp add: occurrences_Cons)
  have np: "\<not> prefix old (c # pre @ old @ post)" and one: "occurrences (pre @ old @ post) old = 1"
    using ge tot by (auto split: if_splits)
  show ?case using Cons.IH [OF Cons(2) one] np by simp
qed

lemma occurrence_split:
  assumes "0 < occurrences content old"
  shows "\<exists>pre post. content = pre @ old @ post"
proof -
  have "filter (prefix old) (suffixes content) \<noteq> []"
    using assms by (auto simp add: occurrences_def)
  then obtain t where t: "t \<in> set (suffixes content)" "prefix old t"
    by (metis filter_False)
  then obtain pre where "content = pre @ t" by (auto simp add: in_set_suffixes suffix_def)
  moreover obtain post where "t = old @ post" using t(2) by (auto simp add: prefix_def)
  ultimately show ?thesis by blast
qed

subsection \<open>Editor: the outcomes of \<open>str_replace\<close>\<close>

text \<open>
  Claim C4, as amended. For an existing file that is valid UTF-8 and a non-empty \<open>old_str\<close>
  that occurs \<open>k\<close> times in the text of the file: \<open>k = 0\<close> gives the not-found message;
  \<open>k = 1\<close> succeeds, with a preview marked \<open>CONFIRM_EDIT\<close> when confirmation is requested
  and otherwise with the file rewritten (the one occurrence replaced by \<open>new_str\<close>) and the
  edit recorded; \<open>k > 1\<close>, when the occurrences do not overlap, gives the multiple-matches
  message, which prints \<open>k\<close>. In every case the backup copy has been written. Nothing is
  said of occurrences that overlap.
\<close>

theorem str_replace_by_count:
  fixes s :: editor and path bytes old :: string and ps :: params
  defines "content \<equiv> universal_newlines bytes"
    and "k \<equiv> occurrences (universal_newlines bytes) old"
    and "new \<equiv> get_default (new_str ps) []"
    and "sb \<equiv> s\<lparr>files := (files s)(backup_filename s path \<mapsto> bytes)\<rparr>"
  assumes "files s path = Some bytes"
    and "utf8_valid bytes"
    and "get_default (old_str ps) [] = old"
    and "old \<noteq> []"
  shows "(k = 0 \<longrightarrow> handle_str_replace s path ps = (TextNotFound, sb))
    \<and> (k = 1 \<longrightarrow>
          (\<exists>pre post. content = pre @ old @ post)
          \<and> (\<forall>pre post. content = pre @ old @ post \<longrightarrow>
               (get_default (confirm ps) True \<longrightarrow>
                  handle_str_replace s path ps = (ConfirmEdit path content (pre @ new @ post), sb)
                  \<and> pending_confirmation (edit_message udiff str_e (fst (handle_str_replace s path ps))))
               \<and> (\<not> get_default (confirm ps) True \<longrightarrow>
                  handle_str_replace s path ps =
                    (Replaced,
                     sb\<lparr>files := (files sb)(path \<mapsto> pre @ new @ post),
                        last_edits := (last_edits s)(path \<mapsto>
                          \<lparr>backup_path = backup_filename s path, operation = ''str_replace'',
                           old_content = Some content, new_content = pre @ new @ post\<rparr>)\<rparr>))))
    \<and> (1 < k \<and> overlap_free content old \<longrightarrow>
          handle_str_replace s path ps = (MultipleMatches k, sb)
          \<and> edit_message udiff str_e (fst (handle_str_replace s path ps))
              = ''Error: The text to replace was found multiple times ('' @ str_nat k
                @ ''). Please provide more context to make the replacement unique.'')"
proof -
  have nb: "backup_filename s path \<noteq> path" by (rule backup_filename_neq)
  have zero: "k = 0 \<Longrightarrow> str_count content old = 0"
    using count_from_le_occurrences [of old content] assms(8)
    by (simp add: str_count_def k_def content_def)
  have one: "k = 1 \<Longrightarrow> str_count content old = 1"
    using count_from_one [of old content] assms(8)
    by (simp add: str_count_def k_def content_def)
  have many: "1 < k \<Longrightarrow> overlap_free content old \<Longrightarrow> str_count content old = k"
    using count_from_eq_occurrences [of old content] assms(8)
    by (simp add: str_count_def k_def content_def)
  have rep: "k = 1 \<Longrightarrow> content = pre @ old @ post \<Longrightarrow> str_replace content old new = pre @ new @ post"
    for pre post
    using replace_from_single [of old pre post new] assms(8)
    by (simp add: str_replace_def k_def content_def)
  have split: "k = 1 \<Longrightarrow> \<exists>pre post. content = pre @ old @ post"
    using occurrence_split [of content old] by (simp add: k_def content_def)
  have c0: "k = 0 \<Longrightarrow> handle_str_replace s path ps = (TextNotFound, sb)"
    using assms(5-8) nb zero
    by (simp add: handle_str_replace_def create_backup_files Let_def sb_def content_def)
  have c1a: "k = 1 \<Longrightarrow> content = pre @ old @ post \<Longrightarrow> get_default (confirm ps) True \<Longrightarrow>
      handle_str_replace s path ps = (ConfirmEdit path content (pre @ new @ post), sb)" for pre post
    using assms(5-8) nb one rep [of pre post]
    by (simp add: handle_str_replace_def create_backup_files Let_def sb_def content_def new_def)
  have c1b: "k = 1 \<Longrightarrow> content = pre @ old @ post \<Longrightarrow> \<not> get_default (confirm ps) True \<Longrightarrow>
      handle_str_replace s path ps =
        (Replaced,
         sb\<lparr>files := (files sb)(path \<mapsto> pre @ new @ post),
            last_edits := (last_edits s)(path \<mapsto>
              \<lparr>backup_path = backup_filename s path, operation = ''str_replace'',
               old_content = Some content, new_content = pre @ new @ post\<rparr>)\<rparr>)" for pre post
    using assms(5-8) nb one rep [of pre post]
    by (simp add: handle_str_replace_def create_backup_files Let_def sb_def content_def new_def)
  have ck: "1 < k \<Longrightarrow> overlap_free content old \<Longrightarrow> handle_str_replace s path ps = (MultipleMatches k, sb)"
    using assms(5-8) nb many
    by (simp add: handle_str_replace_def create_backup_files Let_def sb_def content_def)
  show ?thesis
    using c0 c1a c1b ck split by (auto simp add: pending_confirmation_def)
qed

subsection \<open>Editor: \<open>undo_edit\<close>\<close>

text \<open>
  Claim C6. A committed \<open>create\<close> followed by \<open>undo_edit\<close> on the same path removes the file
  (the file store is the one before the creation), and a committed \<open>str_replace\<close> followed by
  \<open>undo_edit\<close> restores the bytes the file had before the edit, from the backup copy.
\<close>

theorem edit_undo_roundtrip:
  "(handle_create s path ps = (Created path, s1) \<longrightarrow>
      fst (handle_undo_edit s1 path) = UndoneCreate path
      \<and> files (snd (handle_undo_edit s1 path)) path = None
      \<and> files (snd (handle_undo_edit s1 path)) = files s)
   \<and> (handle_str_replace s path ps = (Replaced, s1) \<longrightarrow>
      fst (handle_undo_edit s1 path) = UndoneFromBackup path
      \<and> files s path \<noteq> None
      \<and> files (snd (handle_undo_edit s1 path)) path = files s path)"
proof (intro conjI impI)
  assume c: "handle_create s path ps = (Created path, s1)"
  then have absent: "files s path = None"
    and s1: "s1 = s\<lparr>files := (files s)(path \<mapsto> get_default (file_text ps) []),
              last_edits := (last_edits s)(path \<mapsto>
                \<lparr>backup_path = [], operation = ''create'', old_content = Some [],
                 new_content = get_default (file_text ps) []\<rparr>)\<rparr>"
    by (auto simp add: handle_create_def Let_def split: if_splits)
  show "fst (handle_undo_edit s1 path) = UndoneCreate path"
    by (simp add: s1 handle_undo_edit_def)
  show "files (snd (handle_undo_edit s1 path)) path = None"
    by (simp add: s1 handle_undo_edit_def)
  show "files (snd (handle_undo_edit s1 path)) = files s"
    using absent by (auto simp add: s1 handle_undo_edit_def)
next
  assume r: "handle_str_replace s path ps = (Replaced, s1)"
  then obtain bytes where bytes: "files s path = Some bytes"
    by (cases "files s path") (auto simp add: handle_str_replace_def)
  have valid: "utf8_valid bytes"
    using r bytes backup_filename_neq [of s path]
    by (auto simp add: handle_str_replace_def create_backup_files Let_def split: if_splits)
  let ?b = "backup_filename s path"
  let ?content = "universal_newlines bytes"
  let ?new = "str_replace ?content (get_default (old_str ps) []) (get_default (new_str ps) [])"
  have s1: "s1 = s\<lparr>files := (files s)(?b \<mapsto> bytes, path \<mapsto> ?new),
              last_edits := (last_edits s)(path \<mapsto>
                \<lparr>backup_path = ?b, operation = ''str_replace'', old_content = Some ?content,
                 new_content = ?new\<rparr>)\<rparr>"
    using r bytes valid backup_filename_neq [of s path]
    by (auto simp add: handle_str_replace_def create_backup_files Let_def split: if_splits)
  have b: "?b \<noteq> path" "?b \<noteq> []"
    by (rule backup_filename_neq, rule backup_filename_nonempty)
  show "fst (handle_undo_edit s1 path) = UndoneFromBackup path"
    using b by (simp add: s1 handle_undo_edit_def)
  show "files s path \<noteq> None" using bytes by simp
  show "files (snd (handle_undo_edit s1 path)) path = files s path"
    using b bytes by (simp add: s1 handle_undo_edit_def)
qed

theorem edit_undo_roundtrip_witness:
  "handle_create demo_editor ''/repo/new.txt'' (demo_params [] ''text'' False) = (Created ''/repo/new.txt'', demo_created)
   \<and> files demo_created ''/repo/new.txt'' = Some ''text''
   \<and> fst (handle_undo_edit demo_created ''/repo/new.txt'') = UndoneCreate ''/repo/new.txt''
   \<and> files (snd (handle_undo_edit demo_created ''/repo/new.txt'')) ''/repo/new.txt'' = None
   \<and> handle_str_replace demo_editor ''/repo/a.txt'' (demo_params ''hello'' ''bye'' False) = (Replaced, demo_edited)
   \<and> files demo_edited ''/repo/a.txt'' = Some ''bye\<newline>world''
   \<and> fst (handle_undo_edit demo_edited ''/repo/a.txt'') = UndoneFromBackup ''/repo/a.txt''
   \<and> files (snd (handle_undo_edit demo_edited ''/repo/a.txt'')) ''/repo/a.txt''
       = Some (''hello'' @ [CHR 0x0D, CHR 0x0A] @ ''world'')"
proof -
  have c: "handle_create demo_editor ''/repo/new.txt'' (demo_params [] ''text'' False) = (Created ''/repo/new.txt'', demo_created)"
    by (simp add: prod_eq_iff demo_created_def) (simp add: handle_create_def demo_editor_def demo_params_def get_default_def Let_def)
  have r: "handle_str_replace demo_editor ''/repo/a.txt'' (demo_params ''hello'' ''bye'' False) = (Replaced, demo_edited)"
    by (simp add: prod_eq_iff demo_edited_def) code_simp
  have fc: "files demo_created ''/repo/new.txt'' = Some ''text''"
    by (simp add: demo_created_def handle_create_def demo_editor_def demo_params_def get_default_def Let_def)
  have fr: "files demo_edited ''/repo/a.txt'' = Some ''bye\<newline>world''"
    unfolding demo_edited_def by code_simp
  have f0: "files demo_editor ''/repo/a.txt'' = Some (''hello'' @ [CHR 0x0D, CHR 0x0A] @ ''world'')"
    by (simp add: demo_editor_def)
  have f1: "files demo_editor ''/repo/new.txt'' = None"
    by (simp add: demo_editor_def)
  show ?thesis
    using edit_undo_roundtrip [of demo_editor "''/repo/new.txt''" "demo_params [] ''text'' False" demo_created]
          edit_undo_roundtrip [of demo_editor "''/repo/a.txt''" "demo_params ''hello'' ''bye'' False" demo_edited]
          c r fc fr f0 f1
    by simp
qed

subsection \<open>Finder: the match budgets\<close>

text \<open>
  Claim C9. The content search is to return at most \<open>max_per_file\<close> matches for a file and
  at most \<open>max_results\<close> in total. Both loops test the total only after a whole file has
  been added, so the last file added can take the total past the budget: with
  \<open>max_results = 2\<close> and \<open>max_per_file = 10\<close> the example returns the three matches of
  \<open>/repo/a.txt\<close>.
\<close>

theorem content_search_exceeds_budget:
  "validate_path demo_validator ''.'' = Inr ''/repo''
   \<and> map (\<lambda>(file_path, matches). (file_path, length matches))
       (search_content_in_files demo_validator demo_tree demo_files ''foo'' ''/repo'' False 2 10)
     = [(''/repo/a.txt'', 3)]
   \<and> total_matches_of (search_content_in_files demo_validator demo_tree demo_files ''foo'' ''/repo'' False 2 10) = 3"
proof -
  let ?bytes = "''foo 1\<newline>Foo 2\<newline>bar\<newline>foo 3\<newline>''"
  let ?ms = "search_file_content ''foo'' ?bytes False"
  have dir: "validate_path demo_validator ''.'' = Inr ''/repo''"
    by code_simp
  have all_files: "get_all_files demo_validator demo_tree ''/repo'' = [''/repo/a.txt'', ''/repo/sub/b.txt'']"
    by code_simp
  have len: "length ?ms = 3"
    by code_simp
  then have ne: "?ms \<noteq> []" by auto
  have cut: "slice_to ?ms 10 = ?ms"
    using len by (simp add: slice_to_def)
  have small: "\<not> 1024 * 1024 < length ?bytes" "CHR 0x00 \<notin> set (take 1024 ?bytes)"
    by simp_all
  have fa: "demo_files ''/repo/a.txt'' = Some ?bytes"
    by (simp add: demo_files_def)
  have loop: "search_loop demo_files ''foo'' False 2 10 [] 0 [''/repo/a.txt'', ''/repo/sub/b.txt'']
                = [(''/repo/a.txt'', ?ms)]"
    using small ne
    by (simp only: search_loop.simps fa option.case Let_def cut len if_True if_False AList.update.simps) simp
  have res: "search_content_in_files demo_validator demo_tree demo_files ''foo'' ''/repo'' False 2 10
               = [(''/repo/a.txt'', ?ms)]"
    by (simp only: search_content_in_files_def all_files Let_def loop limit_content_matches_def
          limit_loop.simps cut len AList.update.simps) simp
  show ?thesis
    by (simp only: dir res total_matches_of_def) (simp add: len)
qed

end
